theory Spec2Isabelle
  imports Main "HOL-Library.Word"
begin

section \<open>The Dropbox file handle of afero-dropbox (file.go)\<close>

text \<open>
  The handle \<open>File\<close> adapts whole-object upload, range download and cursor-paginated
  listing to read, write, seek and readdir. The Go code mutates the struct in place;
  every operation below takes the handle and returns the handle it leaves behind.
  The remote client \<open>f.fs\<close> is passed as the first argument \<open>fs\<close>.
\<close>

subsection \<open>Values, errors and outcomes\<close>

type_synonym byte = "8 word"
type_synonym int64 = "64 word"

text \<open>
  \<open>int64\<close> values are 64-bit words: \<open>+\<close> and \<open>-\<close> wrap around as in Go, and the
  comparisons with zero of the source read the word as two's complement (\<open>sint\<close>).
\<close>

datatype error =
    ErrNotSupported
  | ErrAlreadyOpened
  | ErrInvalidSeek
  | ErrFileClosed
  | EOF
  | ErrClosedPipe
  | Transport string
  | Wrapped string error

text \<open>
  \<open>ErrFileClosed\<close> is afero's; \<open>EOF\<close> and \<open>ErrClosedPipe\<close> are the io package's;
  \<open>Transport\<close> is any error of the remote client; \<open>Wrapped msg e\<close> is
  \<open>fmt.Errorf("msg: %w", e)\<close>. \<open>errors_Is\<close> follows the chain of wrapped errors.
\<close>

fun errors_Is :: "error \<Rightarrow> error \<Rightarrow> bool" where
  "errors_Is (Wrapped msg e) target = (Wrapped msg e = target \<or> errors_Is e target)"
| "errors_Is e target = (e = target)"

text \<open>
  A call returns (\<open>Ret\<close>), panics on a nil dereference (\<open>Panic\<close>), or blocks for ever
  on a pipe or a channel (\<open>Hang\<close>).
\<close>

datatype 'a outcome = Ret 'a | Panic | Hang

subsection \<open>FileInfo\<close>

record FileMetadata =
  Name :: string
  Size :: "64 word"
  ClientModified :: int

datatype FolderMetadata = FolderMetadata (FolderName: string)

text \<open>
  A value of the interface \<open>files.IsMetadata\<close>: the nil interface, or a pointer of one
  of the three metadata types. A pointer can be nil inside a non-nil interface value
  (\<open>FileMetadataPtr None\<close>), which is what a failed \<open>Upload\<close> hands to \<open>newFileInfo\<close>.
\<close>

datatype IsMetadata =
    NilMetadata
  | FileMetadataPtr "FileMetadata option"
  | FolderMetadataPtr "FolderMetadata option"
  | DeletedMetadataPtr

datatype FileInfo = FileInfo (meta: IsMetadata)

definition dirListingMaxLimit :: nat where
  "dirListingMaxLimit = 2000"

definition simulatedFileMode :: nat where
  "simulatedFileMode = 511"

definition newFileInfo :: "IsMetadata \<Rightarrow> FileInfo" where
  "newFileInfo m = FileInfo m"

fun FileInfo_Name :: "FileInfo \<Rightarrow> string outcome" where
  "FileInfo_Name (FileInfo (FileMetadataPtr (Some file))) = Ret (Name file)"
| "FileInfo_Name (FileInfo (FileMetadataPtr None)) = Panic"
| "FileInfo_Name (FileInfo (FolderMetadataPtr (Some folder))) = Ret (FolderName folder)"
| "FileInfo_Name (FileInfo (FolderMetadataPtr None)) = Panic"
| "FileInfo_Name (FileInfo m) = Ret []"

fun FileInfo_Size :: "FileInfo \<Rightarrow> int64 outcome" where
  "FileInfo_Size (FileInfo (FileMetadataPtr (Some file))) = Ret (Size file)"
| "FileInfo_Size (FileInfo (FileMetadataPtr None)) = Panic"
| "FileInfo_Size (FileInfo m) = Ret 0"

definition FileInfo_Mode :: "FileInfo \<Rightarrow> nat" where
  "FileInfo_Mode fi = simulatedFileMode"

fun FileInfo_ModTime :: "FileInfo \<Rightarrow> int outcome" where
  "FileInfo_ModTime (FileInfo (FileMetadataPtr (Some file))) = Ret (ClientModified file)"
| "FileInfo_ModTime (FileInfo (FileMetadataPtr None)) = Panic"
| "FileInfo_ModTime (FileInfo m) = Ret 0"

fun FileInfo_IsDir :: "FileInfo \<Rightarrow> bool" where
  "FileInfo_IsDir (FileInfo (FolderMetadataPtr folder)) = True"
| "FileInfo_IsDir (FileInfo m) = False"

definition FileInfo_Sys :: "FileInfo \<Rightarrow> IsMetadata" where
  "FileInfo_Sys fi = meta fi"

subsection \<open>The remote client\<close>

record ListFolderArg =
  Path :: string
  Limit :: "32 word"

record ListFolderContinueArg =
  Cursor :: string

record ListFolderResult =
  Entries :: "IsMetadata list"
  ResultCursor :: string
  HasMore :: bool

record DownloadArg =
  DownloadPath :: string
  ExtraHeaders :: "string \<rightharpoonup> string"

record CommitInfo =
  CommitPath :: string
  Mode :: string
  Autorename :: bool

text \<open>
  The client \<open>f.fs\<close> with the calls the handle makes. A listing, a download and
  \<open>stat\<close> return their error or their result (a failed download returns no body). \<open>'s\<close> is the state of a download body (an \<open>io.ReadCloser\<close>):
  \<open>bodyRead fs s n\<close> is \<open>Read\<close> into a buffer of length \<open>n\<close>, with the bytes read, the
  error and the body afterwards; \<open>bodyClose\<close> is its \<open>Close\<close>.

  \<open>Upload\<close> reads its body from a pipe while the handle writes into it.
  \<open>Upload fs req bs eof\<close> is asked once the call has read the bytes \<open>bs\<close>, and has seen
  the end of the body iff \<open>eof\<close>: \<open>Some (m, err)\<close> when it returns the pointer
  \<open>m\<close> and the error \<open>err\<close> at that point, \<open>None\<close> when it goes on reading.
\<close>

record 's Fs =
  ListFolder :: "ListFolderArg \<Rightarrow> error + ListFolderResult"
  ListFolderContinue :: "ListFolderContinueArg \<Rightarrow> error + ListFolderResult"
  Download :: "DownloadArg \<Rightarrow> error + 's"
  Upload :: "CommitInfo \<Rightarrow> byte list \<Rightarrow> bool \<Rightarrow> (FileMetadata option \<times> error option) option"
  stat :: "string \<Rightarrow> error + FileInfo"
  dirListLimit :: int
  bodyRead :: "'s \<Rightarrow> nat \<Rightarrow> (byte list \<times> error option) \<times> 's"
  bodyClose :: "'s \<Rightarrow> error option \<times> 's"

subsection \<open>The handle\<close>

text \<open>
  The writer end of the \<open>io.Pipe\<close>: the bytes its reader (the upload) has taken, and
  whether the writer end has been closed.
\<close>

record PipeWriter =
  pipeRead :: "byte list"
  pipeClosed :: bool

text \<open>
  The unbuffered channel \<open>streamWriteCloseErr\<close>: the upload task is still inside
  \<open>Upload\<close> (\<open>NoSender\<close>), or it is blocked sending its result (\<open>Sender err\<close>).
\<close>

datatype errchan = NoSender | Sender "error option"

record 's File =
  name :: string
  streamWrite :: "PipeWriter option"
  streamRead :: "'s option"
  streamWriteCloseErr :: "errchan option"
  streamWriteErr :: "error option"
  dirList :: "FileInfo list option"
  dirListCursor :: string
  dirListDone :: bool
  streamReadOffset :: int64
  cachedInfo :: "FileInfo option"

definition newFile :: "string \<Rightarrow> 's File" where
  "newFile nm =
     \<lparr>name = nm, streamWrite = None, streamRead = None,
      streamWriteCloseErr = Some NoSender, streamWriteErr = None,
      dirList = None, dirListCursor = [], dirListDone = False,
      streamReadOffset = 0, cachedInfo = None\<rparr>"

definition SeekStart :: int where "SeekStart = 0"
definition SeekCurrent :: int where "SeekCurrent = 1"
definition SeekEnd :: int where "SeekEnd = 2"

subsection \<open>The upload task and the write stream\<close>

text \<open>
  \<open>openWriteStream\<close> starts a goroutine that calls \<open>Upload\<close> on the reader end of the
  pipe. The handle meets the task at the pipe (\<open>Write\<close>) and at the channel (\<open>Close\<close>);
  \<open>uploadTask fs f eof\<close> is the task's progress observed at such a point. While
  \<open>Upload\<close> has not returned nothing changes; once it has returned, the rest of the
  goroutine body runs up to the send on the channel.
\<close>

definition uploadTask :: "'s Fs \<Rightarrow> 's File \<Rightarrow> bool \<Rightarrow> 's File" where
  "uploadTask fs f eof =
     (case (streamWrite f, streamWriteCloseErr f) of
        (Some w, Some NoSender) \<Rightarrow>
          (let req = \<lparr>CommitPath = name f, Mode = ''overwrite'', Autorename = False\<rparr> in
           case Upload fs req (pipeRead w) eof of
             None \<Rightarrow> f
           | Some (m, err) \<Rightarrow>
               (let f1 = (if err \<noteq> None
                          then f\<lparr>streamWriteErr := err,
                                 streamWrite := Some (w\<lparr>pipeClosed := True\<rparr>)\<rparr>
                          else f)
                in f1\<lparr>cachedInfo := Some (newFileInfo (FileMetadataPtr m)),
                      streamWriteCloseErr := Some (Sender err)\<rparr>))
      | _ \<Rightarrow> f)"

definition openWriteStream :: "'s File \<Rightarrow> error option \<times> 's File" where
  "openWriteStream f =
     (if streamWrite f \<noteq> None then (Some ErrAlreadyOpened, f)
      else (None, f\<lparr>cachedInfo := None,
                     streamWriteCloseErr := Some NoSender,
                     streamWrite := Some \<lparr>pipeRead = [], pipeClosed = False\<rparr>\<rparr>))"

text \<open>
  \<open>Write\<close> forwards to the pipe; a nil \<open>streamWrite\<close> is a nil dereference. A closed
  pipe refuses the bytes; a pipe whose reader has gone away without closing it blocks
  the writer for ever; otherwise the upload takes the bytes.
\<close>

definition Write :: "'s Fs \<Rightarrow> 's File \<Rightarrow> byte list \<Rightarrow> ((nat \<times> error option) \<times> 's File) outcome" where
  "Write fs f p =
     (let f1 = uploadTask fs f False in
      case streamWrite f1 of
        None \<Rightarrow> Panic
      | Some w \<Rightarrow>
          if pipeClosed w then Ret ((0, Some ErrClosedPipe), f1)
          else if streamWriteCloseErr f1 \<noteq> Some NoSender then Hang
          else Ret ((length p, None),
                    f1\<lparr>streamWrite := Some (w\<lparr>pipeRead := pipeRead w @ p\<rparr>)\<rparr>))"

definition WriteString :: "'s Fs \<Rightarrow> 's File \<Rightarrow> byte list \<Rightarrow> ((nat \<times> error option) \<times> 's File) outcome" where
  "WriteString fs f s = Write fs f s"

subsection \<open>Close\<close>

text \<open>
  Closing the writer end of an \<open>io.Pipe\<close> never fails; the branch of the source for a
  failing close is kept. The receive from the channel waits for the upload task, which
  sees the end of the body now.
\<close>

definition pipeClose :: "PipeWriter \<Rightarrow> error option \<times> PipeWriter" where
  "pipeClose w = (None, w\<lparr>pipeClosed := True\<rparr>)"

definition Close :: "'s Fs \<Rightarrow> 's File \<Rightarrow> (error option \<times> 's File) outcome" where
  "Close fs f =
     (case streamRead f of
        Some s \<Rightarrow> Ret (fst (bodyClose fs s), f\<lparr>streamRead := None\<rparr>)
      | None \<Rightarrow>
          (case streamWrite f of
             Some w \<Rightarrow>
               (case pipeClose w of
                  (Some err, w') \<Rightarrow>
                    Ret (Some (Wrapped ''problem writing file'' err),
                         f\<lparr>streamWrite := None, streamWriteCloseErr := None\<rparr>)
                | (None, w') \<Rightarrow>
                    (let f1 = uploadTask fs (f\<lparr>streamWrite := Some w'\<rparr>) True in
                     case streamWriteCloseErr f1 of
                       Some (Sender err) \<Rightarrow>
                         Ret (err, f1\<lparr>streamWrite := None, streamWriteCloseErr := None\<rparr>)
                     | _ \<Rightarrow> Hang))
           | None \<Rightarrow> Ret (None, f)))"

subsection \<open>Read and Seek\<close>

text \<open>
  \<open>Read\<close> returns the bytes stored into \<open>p\<close> (the count \<open>n\<close> of the source is their
  number) and the error. \<open>n\<close> is the length of the buffer.
\<close>

definition Read :: "'s Fs \<Rightarrow> 's File \<Rightarrow> nat \<Rightarrow> ((byte list \<times> error option) \<times> 's File) outcome" where
  "Read fs f n =
     (case streamRead f of
        None \<Rightarrow> Panic
      | Some s \<Rightarrow>
          (case bodyRead fs s n of
             ((bs, Some err), s') \<Rightarrow>
               if errors_Is err EOF then Ret ((bs, Some EOF), f\<lparr>streamRead := Some s'\<rparr>)
               else Ret (([], Some (Wrapped ''couldn't read from stream'' err)),
                         f\<lparr>streamRead := Some s'\<rparr>)
           | ((bs, None), s') \<Rightarrow>
               Ret ((bs, None),
                    f\<lparr>streamRead := Some s',
                      streamReadOffset := streamReadOffset f + of_nat (length bs)\<rparr>)))"

text \<open>\<open>fmt.Sprintf("%d", i)\<close>.\<close>

fun decimal :: "nat \<Rightarrow> string" where
  "decimal n =
     (if n < 10 then [''0123456789'' ! n]
      else decimal (n div 10) @ [''0123456789'' ! (n mod 10)])"

definition fmt_d :: "int \<Rightarrow> string" where
  "fmt_d i = (if i < 0 then CHR ''-'' # decimal (nat (- i)) else decimal (nat i))"

definition openReadStream :: "'s Fs \<Rightarrow> 's File \<Rightarrow> int64 \<Rightarrow> error option \<times> 's File" where
  "openReadStream fs f startAt =
     (let f1 = f\<lparr>streamReadOffset := startAt\<rparr>;
          req = \<lparr>DownloadPath = name f,
                 ExtraHeaders =
                   (if 0 < sint startAt
                    then [''Range'' \<mapsto> ''bytes='' @ fmt_d (sint startAt) @ ''-'']
                    else Map.empty)\<rparr>
      in case Download fs req of
           Inl err \<Rightarrow> (Some (Wrapped ''couldn't download file'' err), f1\<lparr>streamRead := None\<rparr>)
         | Inr body \<Rightarrow> (None, f1\<lparr>streamRead := Some body\<rparr>))"

text \<open>The \<open>switch\<close> of \<open>seekRead\<close>; \<open>f.cachedInfo.Size()\<close> panics on a nil \<open>cachedInfo\<close>.\<close>

definition startByte :: "'s File \<Rightarrow> int64 \<Rightarrow> int \<Rightarrow> int64 outcome" where
  "startByte f offset whence =
     (if whence = SeekStart then Ret offset
      else if whence = SeekCurrent then Ret (streamReadOffset f + offset)
      else if whence = SeekEnd then
        (case cachedInfo f of
           None \<Rightarrow> Panic
         | Some fi \<Rightarrow>
             (case FileInfo_Size fi of Ret sz \<Rightarrow> Ret (sz - offset) | Panic \<Rightarrow> Panic | Hang \<Rightarrow> Hang))
      else Ret 0)"

definition seekRead :: "'s Fs \<Rightarrow> 's File \<Rightarrow> int64 \<Rightarrow> int \<Rightarrow> ((int64 \<times> error option) \<times> 's File) outcome" where
  "seekRead fs f offset whence =
     (case startByte f offset whence of
        Panic \<Rightarrow> Panic
      | Hang \<Rightarrow> Hang
      | Ret start \<Rightarrow>
          (case streamRead f of
             None \<Rightarrow> Panic
           | Some s \<Rightarrow>
               (case bodyClose fs s of
                  (Some err, s') \<Rightarrow>
                    Ret ((0, Some (Wrapped ''couldn't close previous stream'' err)),
                         f\<lparr>streamRead := Some s'\<rparr>)
                | (None, s') \<Rightarrow>
                    (let f1 = f\<lparr>streamRead := None\<rparr> in
                     if sint start < 0 then Ret ((start, Some ErrInvalidSeek), f1)
                     else (case openReadStream fs f1 start of
                             (err, f2) \<Rightarrow> Ret ((start, err), f2))))))"

definition Seek :: "'s Fs \<Rightarrow> 's File \<Rightarrow> int64 \<Rightarrow> int \<Rightarrow> ((int64 \<times> error option) \<times> 's File) outcome" where
  "Seek fs f offset whence =
     (if streamWrite f \<noteq> None then Ret ((0, Some ErrNotSupported), f)
      else if streamRead f \<noteq> None then seekRead fs f offset whence
      else Ret ((0, Some ErrFileClosed), f))"

definition ReadAt :: "'s Fs \<Rightarrow> 's File \<Rightarrow> nat \<Rightarrow> int64 \<Rightarrow> ((byte list \<times> error option) \<times> 's File) outcome" where
  "ReadAt fs f n off =
     (case Seek fs f off SeekCurrent of
        Panic \<Rightarrow> Panic
      | Hang \<Rightarrow> Hang
      | Ret ((pos, Some err), f1) \<Rightarrow> Ret (([], Some err), f1)
      | Ret ((pos, None), f1) \<Rightarrow> Read fs f1 n)"

definition WriteAt :: "'s Fs \<Rightarrow> 's File \<Rightarrow> byte list \<Rightarrow> int64 \<Rightarrow> ((nat \<times> error option) \<times> 's File) outcome" where
  "WriteAt fs f p off =
     (case Seek fs f off SeekCurrent of
        Panic \<Rightarrow> Panic
      | Hang \<Rightarrow> Hang
      | Ret ((pos, Some err), f1) \<Rightarrow> Ret ((0, Some err), f1)
      | Ret ((pos, None), f1) \<Rightarrow> Write fs f1 p)"

definition Stat :: "'s Fs \<Rightarrow> 's File \<Rightarrow> (FileInfo option \<times> error option) \<times> 's File" where
  "Stat fs f =
     (case cachedInfo f of
        None \<Rightarrow>
          (case stat fs (name f) of
             Inl err \<Rightarrow> ((None, Some err), f\<lparr>cachedInfo := None\<rparr>)
           | Inr fi \<Rightarrow> ((Some fi, None), f\<lparr>cachedInfo := Some fi\<rparr>))
      | Some fi \<Rightarrow> ((Some fi, None), f))"

definition Sync :: "'s File \<Rightarrow> error option" where
  "Sync f = None"

definition Truncate :: "'s File \<Rightarrow> int64 \<Rightarrow> error option" where
  "Truncate f sz = Some ErrNotSupported"

subsection \<open>Directory listing\<close>

text \<open>
  The loops of the listing run until the server says so; they are partial functions,
  and \<open>None\<close> is a call that never returns. \<open>_readDirAll\<close> keeps its own cursor and
  leaves the handle alone. On an error it returns \<open>nil, err\<close> (\<open>Inl err\<close>).
\<close>

partial_function (option) readDirAll_loop ::
  "'s Fs \<Rightarrow> 's File \<Rightarrow> FileInfo list \<Rightarrow> string \<Rightarrow> (error + FileInfo list) option" where
  "readDirAll_loop fs f fis cursor =
     (case (if length cursor = 0
            then ListFolder fs \<lparr>Path = name f, Limit = 0\<rparr>
            else ListFolderContinue fs \<lparr>Cursor = cursor\<rparr>) of
        Inl err \<Rightarrow> Some (Inl err)
      | Inr resp \<Rightarrow>
          if \<not> HasMore resp then Some (Inr (fis @ map newFileInfo (Entries resp)))
          else readDirAll_loop fs f (fis @ map newFileInfo (Entries resp)) (ResultCursor resp))"

definition readDirAll :: "'s Fs \<Rightarrow> 's File \<Rightarrow> (error + FileInfo list) option" where
  "readDirAll fs f = readDirAll_loop fs f [] []"

text \<open>
  The channel \<open>dirList\<close> is used as a queue of capacity \<open>dirListingMaxLimit\<close>. A send
  on a full channel, or on the nil channel, blocks for ever: nobody else receives.
\<close>

fun sendAll :: "FileInfo list option \<Rightarrow> IsMetadata list \<Rightarrow> FileInfo list option option" where
  "sendAll ch [] = Some ch"
| "sendAll None (m # ms) = None"
| "sendAll (Some q) (m # ms) =
     (if length q < dirListingMaxLimit then sendAll (Some (q @ [newFileInfo m])) ms else None)"

definition readDir :: "'s Fs \<Rightarrow> 's File \<Rightarrow> (error option \<times> 's File) option" where
  "readDir fs f =
     (let f1 = (if dirListCursor f = [] then f\<lparr>dirList := Some []\<rparr> else f);
          res = (if dirListCursor f = []
                 then ListFolder fs
                        \<lparr>Path = name f,
                         Limit = (if dirListLimit fs \<noteq> 0 then word_of_int (dirListLimit fs) else 0)\<rparr>
                 else ListFolderContinue fs \<lparr>Cursor = dirListCursor f\<rparr>)
      in case res of
           Inl err \<Rightarrow> Some (Some (Wrapped ''couldn't fetch files list'' err), f1)
         | Inr r \<Rightarrow>
             (case sendAll (dirList f1) (Entries r) of
                None \<Rightarrow> None
              | Some ch \<Rightarrow>
                  Some (None, f1\<lparr>dirListCursor := ResultCursor r,
                                  dirListDone := \<not> HasMore r,
                                  dirList := ch\<rparr>)))"

text \<open>\<open>len\<close> of a channel; the nil channel has length 0.\<close>

definition chanLen :: "FileInfo list option \<Rightarrow> nat" where
  "chanLen ch = (case ch of None \<Rightarrow> 0 | Some q \<Rightarrow> length q)"

text \<open>The inner loop of \<open>Readdir\<close>: receive while the list is short and the queue holds entries.\<close>

fun drain :: "int \<Rightarrow> FileInfo list \<Rightarrow> FileInfo list \<Rightarrow> FileInfo list \<times> FileInfo list" where
  "drain count list [] = (list, [])"
| "drain count list (x # q) =
     (if int (length list) < count then drain count (list @ [x]) q else (list, x # q))"

partial_function (option) Readdir_loop ::
  "'s Fs \<Rightarrow> int \<Rightarrow> 's File \<Rightarrow> FileInfo list \<Rightarrow> ((error + FileInfo list) \<times> 's File) option" where
  "Readdir_loop fs count f list =
     (if int (length list) < count \<and> \<not> dirListDone f then
        (case (if chanLen (dirList f) = 0 then readDir fs f else Some (None, f)) of
           None \<Rightarrow> None
         | Some (Some err, f1) \<Rightarrow> Some (Inl err, f1)
         | Some (None, f1) \<Rightarrow>
             (case dirList f1 of
                None \<Rightarrow> Readdir_loop fs count f1 list
              | Some q \<Rightarrow>
                  Readdir_loop fs count (f1\<lparr>dirList := Some (snd (drain count list q))\<rparr>)
                    (fst (drain count list q))))
      else Some (Inr list, f))"

definition Readdir :: "'s Fs \<Rightarrow> 's File \<Rightarrow> int \<Rightarrow> ((error + FileInfo list) \<times> 's File) option" where
  "Readdir fs f count =
     (if count \<le> 0 then map_option (\<lambda>r. (r, f)) (readDirAll fs f)
      else Readdir_loop fs count f [])"

subsection \<open>The pages of a listing\<close>

text \<open>
  The reference the listing is compared with: \<open>listing fs path ps\<close> holds when \<open>ps\<close> are
  the pages obtained by calling the initial listing of \<open>path\<close> once and then the
  continuation call with the cursor of each page that has more, up to the first page
  that has no more.
\<close>

fun continuation :: "'s Fs \<Rightarrow> ListFolderResult \<Rightarrow> ListFolderResult list \<Rightarrow> bool" where
  "continuation fs r [] = (\<not> HasMore r)"
| "continuation fs r (r' # rs) =
     (HasMore r \<and> ListFolderContinue fs \<lparr>Cursor = ResultCursor r\<rparr> = Inr r' \<and>
      continuation fs r' rs)"

fun listing :: "'s Fs \<Rightarrow> string \<Rightarrow> ListFolderResult list \<Rightarrow> bool" where
  "listing fs path [] = False"
| "listing fs path (r # rs) =
     (ListFolder fs \<lparr>Path = path, Limit = 0\<rparr> = Inr r \<and> continuation fs r rs)"

text \<open>
  \<open>remaining fs path cursor ps\<close> holds when \<open>ps\<close> are the pages that the fetches of
  \<open>Readdir\<close> obtain from a handle on \<open>path\<close> whose stored cursor is \<open>cursor\<close>: every
  fetch succeeds, every page fits into the queue, and the last page has no more.
\<close>

fun remaining :: "'s Fs \<Rightarrow> string \<Rightarrow> string \<Rightarrow> ListFolderResult list \<Rightarrow> bool" where
  "remaining fs path cursor [] = False"
| "remaining fs path cursor (r # rs) =
     ((if cursor = []
       then ListFolder fs
              \<lparr>Path = path,
               Limit = (if dirListLimit fs \<noteq> 0 then word_of_int (dirListLimit fs) else 0)\<rparr>
       else ListFolderContinue fs \<lparr>Cursor = cursor\<rparr>) = Inr r \<and>
      length (Entries r) \<le> dirListingMaxLimit \<and>
      (if HasMore r then remaining fs path (ResultCursor r) rs else rs = []))"

subsection \<open>Example remotes and handles\<close>

text \<open>
  A download body that is a list of bytes: a read hands out what fits into the
  buffer, and reports the end of the data together with the last bytes.
\<close>

definition bytesRead :: "byte list \<Rightarrow> nat \<Rightarrow> (byte list \<times> error option) \<times> byte list" where
  "bytesRead s n =
     (if length s \<le> n then ((s, Some EOF), []) else ((take n s, None), drop n s))"

definition demoContent :: "byte list" where
  "demoContent = [1, 2, 3, 4, 5, 6, 7, 8]"

definition demoDownload :: "DownloadArg \<Rightarrow> error + byte list" where
  "demoDownload arg =
     (if ExtraHeaders arg ''Range'' = None then Inr demoContent
      else if ExtraHeaders arg ''Range'' = Some ''bytes=3-'' then Inr (drop 3 demoContent)
      else Inl (Transport ''416''))"

text \<open>A remote that serves one object of eight bytes and fails every upload at its end.\<close>

definition demoFs :: "byte list Fs" where
  "demoFs =
     \<lparr>ListFolder = (\<lambda>arg. Inl (Transport ''not a folder'')),
      ListFolderContinue = (\<lambda>arg. Inl (Transport ''not a folder'')),
      Download = demoDownload,
      Upload = (\<lambda>req bs eof.
         if eof then Some (None, Some (Transport ''upload failed'')) else None),
      stat = (\<lambda>nm. Inr (FileInfo (FileMetadataPtr
                (Some \<lparr>Name = nm, Size = 8, ClientModified = 0\<rparr>)))),
      dirListLimit = 0,
      bodyRead = bytesRead,
      bodyClose = (\<lambda>s. (None, s))\<rparr>"

definition demoReading :: "byte list File" where
  "demoReading = (newFile ''/a.txt'')\<lparr>streamRead := Some demoContent\<rparr>"

definition demoReadingAt3 :: "byte list File" where
  "demoReadingAt3 =
     (newFile ''/a.txt'')\<lparr>streamRead := Some [4, 5, 6, 7, 8], streamReadOffset := 3\<rparr>"

definition demoAtEnd :: "byte list File" where
  "demoAtEnd = demoReadingAt3\<lparr>streamRead := Some []\<rparr>"

definition demoCached :: "byte list File" where
  "demoCached =
     demoReading\<lparr>cachedInfo := Some (FileInfo (FileMetadataPtr
        (Some \<lparr>Name = ''a.txt'', Size = 8, ClientModified = 0\<rparr>)))\<rparr>"

definition demoWriting :: "byte list File" where
  "demoWriting = snd (openWriteStream (newFile ''/a.txt''))"

definition demoWritten :: "byte list File" where
  "demoWritten =
     demoWriting\<lparr>streamWrite := Some \<lparr>pipeRead = [1, 2, 3], pipeClosed = False\<rparr>\<rparr>"

definition demoFailed :: "byte list File" where
  "demoFailed =
     (newFile ''/a.txt'')\<lparr>streamWriteCloseErr := None,
                          streamWriteErr := Some (Transport ''upload failed''),
                          cachedInfo := Some (FileInfo (FileMetadataPtr None))\<rparr>"

definition entry :: "string \<Rightarrow> IsMetadata" where
  "entry nm = FileMetadataPtr (Some \<lparr>Name = nm, Size = 1, ClientModified = 0\<rparr>)"

text \<open>A folder of three entries served in two pages.\<close>

definition listFs :: "byte list Fs" where
  "listFs =
     \<lparr>ListFolder = (\<lambda>arg. Inr \<lparr>Entries = [entry ''a'', entry ''b''],
                                ResultCursor = ''c1'', HasMore = True\<rparr>),
      ListFolderContinue = (\<lambda>arg.
         if Cursor arg = ''c1''
         then Inr \<lparr>Entries = [entry ''c''], ResultCursor = ''c2'', HasMore = False\<rparr>
         else Inl (Transport ''bad cursor'')),
      Download = (\<lambda>arg. Inl (Transport ''is a folder'')),
      Upload = (\<lambda>req bs eof. Some (None, Some (Transport ''is a folder''))),
      stat = (\<lambda>nm. Inr (FileInfo (FolderMetadataPtr (Some (FolderMetadata nm))))),
      dirListLimit = 0,
      bodyRead = (\<lambda>s n. (([], Some EOF), s)),
      bodyClose = (\<lambda>s. (None, s))\<rparr>"

text \<open>The same folder, from a server whose first page carries an empty cursor.\<close>

definition restartFs :: "byte list Fs" where
  "restartFs =
     \<lparr>ListFolder = (\<lambda>arg. Inr \<lparr>Entries = [entry ''a''], ResultCursor = [], HasMore = True\<rparr>),
      ListFolderContinue = (\<lambda>arg. Inr \<lparr>Entries = [entry ''b''],
                                        ResultCursor = ''c1'', HasMore = False\<rparr>),
      Download = (\<lambda>arg. Inl (Transport ''is a folder'')),
      Upload = (\<lambda>req bs eof. Some (None, Some (Transport ''is a folder''))),
      stat = (\<lambda>nm. Inr (FileInfo (FolderMetadataPtr (Some (FolderMetadata nm))))),
      dirListLimit = 0,
      bodyRead = (\<lambda>s n. (([], Some EOF), s)),
      bodyClose = (\<lambda>s. (None, s))\<rparr>"

definition listed1 :: "byte list File" where
  "listed1 =
     (newFile ''/d'')\<lparr>dirList := Some [FileInfo (entry ''b'')], dirListCursor := ''c1''\<rparr>"

definition listed5 :: "byte list File" where
  "listed5 =
     (newFile ''/d'')\<lparr>dirList := Some [], dirListCursor := ''c2'', dirListDone := True\<rparr>"

section \<open>Properties\<close>

subsection \<open>Write streams\<close>

text \<open>
  C7. Opening a write stream while one is active fails with \<open>ErrAlreadyOpened\<close> and
  leaves the handle as it was; when none is active, opening succeeds and the cached
  metadata is absent afterwards.
\<close>

theorem openWriteStream_spec:
  "(streamWrite f \<noteq> None \<longrightarrow> openWriteStream f = (Some ErrAlreadyOpened, f)) \<and>
   (streamWrite f = None \<longrightarrow>
      fst (openWriteStream f) = None \<and> cachedInfo (snd (openWriteStream f)) = None)"
  by (simp add: openWriteStream_def)

theorem openWriteStream_spec_witness:
  "streamWrite (demoWriting :: byte list File) \<noteq> None \<and>
   openWriteStream demoWriting = (Some ErrAlreadyOpened, demoWriting) \<and>
   streamWrite (newFile ''/a.txt'' :: byte list File) = None \<and>
   fst (openWriteStream (newFile ''/a.txt'' :: byte list File)) = None \<and>
   cachedInfo (snd (openWriteStream (newFile ''/a.txt'' :: byte list File))) = None"
proof -
  have active: "streamWrite (demoWriting :: byte list File) \<noteq> None"
    by (simp add: demoWriting_def openWriteStream_def newFile_def)
  have idle: "streamWrite (newFile ''/a.txt'' :: byte list File) = None"
    by (simp add: newFile_def)
  from active idle
    openWriteStream_spec [of "demoWriting :: byte list File"]
    openWriteStream_spec [of "newFile ''/a.txt'' :: byte list File"]
  show ?thesis by simp
qed

text \<open>
  C8. \<open>Truncate\<close> returns \<open>ErrNotSupported\<close> for every handle and size; while a write
  stream is open, \<open>Seek\<close> and \<open>WriteAt\<close> return \<open>ErrNotSupported\<close> for all arguments and
  leave the handle as it was.
\<close>

theorem NotSupported_spec:
  "Truncate f sz = Some ErrNotSupported \<and>
   (streamWrite f \<noteq> None \<longrightarrow>
      Seek fs f off whence = Ret ((0, Some ErrNotSupported), f) \<and>
      WriteAt fs f p off = Ret ((0, Some ErrNotSupported), f))"
  by (simp add: Truncate_def Seek_def WriteAt_def)

theorem NotSupported_spec_witness:
  "streamWrite demoWriting \<noteq> None \<and>
   Truncate demoWriting 0 = Some ErrNotSupported \<and>
   Seek demoFs demoWriting 4 SeekStart = Ret ((0, Some ErrNotSupported), demoWriting) \<and>
   WriteAt demoFs demoWriting [1, 2] 4 = Ret ((0, Some ErrNotSupported), demoWriting)"
proof -
  have active: "streamWrite (demoWriting :: byte list File) \<noteq> None"
    by (simp add: demoWriting_def openWriteStream_def newFile_def)
  with NotSupported_spec [of demoWriting 0 demoFs 4 SeekStart "[1, 2]"]
  show ?thesis by simp
qed

subsection \<open>Read streams\<close>

text \<open>
  C3. On a handle with an open read stream whose close succeeds, for a non-negative
  \<open>s\<close> for which the range download starting at \<open>s\<close> succeeds with the body \<open>body\<close>:
  \<open>Seek(s, SeekStart)\<close> returns \<open>s\<close> and leaves the handle on that body at offset \<open>s\<close>,
  and a following \<open>Read\<close> returns the bytes that a read of that body returns (with
  \<open>EOF\<close> when the body signals the end of the data). The request carries the header
  \<open>Range: bytes=s-\<close>, and no header when \<open>s = 0\<close>.
\<close>

theorem Seek_start_then_Read:
  assumes "streamWrite f = None" and "streamRead f = Some old"
    and "bodyClose fs old = (None, old')"
    and "0 \<le> sint s"
    and "Download fs \<lparr>DownloadPath = name f,
                      ExtraHeaders = (if s = 0 then Map.empty
                                      else [''Range'' \<mapsto> ''bytes='' @ fmt_d (sint s) @ ''-''])\<rparr>
           = Inr body"
    and "bodyRead fs body n = ((bs, err), body')"
    and "\<forall>e. err = Some e \<longrightarrow> errors_Is e EOF"
  shows "Seek fs f s SeekStart =
           Ret ((s, None), f\<lparr>streamRead := Some body, streamReadOffset := s\<rparr>) \<and>
         (\<exists>f''. Read fs (f\<lparr>streamRead := Some body, streamReadOffset := s\<rparr>) n =
                  Ret ((bs, map_option (\<lambda>e. EOF) err), f''))"
proof -
  have header: "(if 0 < sint s then [''Range'' \<mapsto> ''bytes='' @ fmt_d (sint s) @ ''-'']
                 else Map.empty) =
                (if s = 0 then Map.empty
                 else [''Range'' \<mapsto> ''bytes='' @ fmt_d (sint s) @ ''-''])"
    using assms(4) by (cases "s = 0") (auto simp: signed_eq_0_iff order_less_le)
  have "openReadStream fs (f\<lparr>streamRead := None\<rparr>) s =
          (None, f\<lparr>streamRead := Some body, streamReadOffset := s\<rparr>)"
    using assms(5) by (simp add: openReadStream_def header)
  with assms(1-4) have seek: "Seek fs f s SeekStart =
           Ret ((s, None), f\<lparr>streamRead := Some body, streamReadOffset := s\<rparr>)"
    by (simp add: Seek_def seekRead_def startByte_def SeekStart_def)
  from assms(6,7) have "\<exists>f''. Read fs (f\<lparr>streamRead := Some body, streamReadOffset := s\<rparr>) n =
                  Ret ((bs, map_option (\<lambda>e. EOF) err), f'')"
    by (cases err) (auto simp: Read_def)
  with seek show ?thesis by simp
qed

theorem Seek_start_then_Read_witness:
  "Seek demoFs demoReading 3 SeekStart = Ret ((3, None), demoReadingAt3) \<and>
   Read demoFs demoReadingAt3 2 =
     Ret (([4, 5], None), demoReadingAt3\<lparr>streamRead := Some [6, 7, 8], streamReadOffset := 5\<rparr>)"
proof -
  have "Seek demoFs demoReading 3 SeekStart =
          Ret ((3, None), demoReading\<lparr>streamRead := Some [4, 5, 6, 7, 8], streamReadOffset := 3\<rparr>)"
    using Seek_start_then_Read [of demoReading demoContent demoFs demoContent 3
        "[4, 5, 6, 7, 8]" 2 "[4, 5]" None "[6, 7, 8]"]
    by (simp add: demoReading_def demoFs_def newFile_def demoDownload_def demoContent_def
        fmt_d_def bytesRead_def)
  moreover have "demoReading\<lparr>streamRead := Some [4, 5, 6, 7, 8], streamReadOffset := 3\<rparr> =
      demoReadingAt3"
    by (simp add: demoReading_def demoReadingAt3_def newFile_def)
  moreover have "Read demoFs demoReadingAt3 2 =
     Ret (([4, 5], None), demoReadingAt3\<lparr>streamRead := Some [6, 7, 8], streamReadOffset := 5\<rparr>)"
    by (simp add: Read_def demoReadingAt3_def demoFs_def bytesRead_def newFile_def)
  ultimately show ?thesis by simp
qed

text \<open>
  C4. For a handle with an open read stream and cached metadata of size \<open>S\<close>, the
  target of \<open>Seek(offset, SeekEnd)\<close> is the 64-bit difference \<open>S - offset\<close>, which is
  the integer difference whenever that fits into an \<open>int64\<close>. Once the previous stream
  is closed, a negative target is refused with \<open>ErrInvalidSeek\<close>, and otherwise
  \<open>openReadStream\<close> reopens the download at \<open>S - offset\<close>.
\<close>

theorem Seek_end_target:
  assumes "cachedInfo f = Some fi" and "FileInfo_Size fi = Ret S"
    and "streamWrite f = None" and "streamRead f = Some old"
    and "bodyClose fs old = (None, old')"
  shows "startByte f offset SeekEnd = Ret (S - offset) \<and>
         (- (2 ^ 63) \<le> sint S - sint offset \<and> sint S - sint offset < 2 ^ 63 \<longrightarrow>
            sint (S - offset) = sint S - sint offset) \<and>
         Seek fs f offset SeekEnd =
           (if sint (S - offset) < 0
            then Ret ((S - offset, Some ErrInvalidSeek), f\<lparr>streamRead := None\<rparr>)
            else (case openReadStream fs (f\<lparr>streamRead := None\<rparr>) (S - offset) of
                    (err, f') \<Rightarrow> Ret ((S - offset, err), f')))"
proof -
  have target: "startByte f offset SeekEnd = Ret (S - offset)"
    using assms(1,2) by (simp add: startByte_def SeekEnd_def SeekCurrent_def SeekStart_def)
  have exact: "- (2 ^ 63) \<le> sint S - sint offset \<and> sint S - sint offset < 2 ^ 63 \<longrightarrow>
            sint (S - offset) = sint S - sint offset"
    by (simp add: sint_word_ariths signed_take_bit_int_eq_self)
  have "Seek fs f offset SeekEnd = seekRead fs f offset SeekEnd"
    using assms(3,4) by (simp add: Seek_def)
  with target assms(4,5) exact show ?thesis
    by (simp add: seekRead_def)
qed

theorem Seek_end_target_witness:
  "startByte demoCached 5 SeekEnd = Ret 3 \<and>
   Seek demoFs demoCached 5 SeekEnd =
     Ret ((3, None), demoCached\<lparr>streamRead := Some [4, 5, 6, 7, 8], streamReadOffset := 3\<rparr>) \<and>
   Seek demoFs demoCached 9 SeekEnd =
     Ret ((- 1, Some ErrInvalidSeek), demoCached\<lparr>streamRead := None\<rparr>)"
proof -
  let ?fi = "FileInfo (FileMetadataPtr (Some \<lparr>Name = ''a.txt'', Size = 8, ClientModified = 0\<rparr>))"
  have hyps: "cachedInfo demoCached = Some ?fi" "FileInfo_Size ?fi = Ret 8"
    "streamWrite demoCached = None" "streamRead demoCached = Some demoContent"
    "bodyClose demoFs demoContent = (None, demoContent)"
    by (simp_all add: demoCached_def demoReading_def newFile_def demoFs_def)
  have reopen: "openReadStream demoFs (demoCached\<lparr>streamRead := None\<rparr>) 3 =
      (None, demoCached\<lparr>streamRead := Some [4, 5, 6, 7, 8], streamReadOffset := 3\<rparr>)"
    by (simp add: openReadStream_def demoFs_def demoDownload_def demoContent_def fmt_d_def
        demoCached_def demoReading_def newFile_def)
  from Seek_end_target [OF hyps, of 5] Seek_end_target [OF hyps, of 9] reopen
  show ?thesis by simp
qed

lemma of_nat_length_nonzero:
  assumes "bs \<noteq> []" and "length bs < 2 ^ 64"
  shows "(of_nat (length bs) :: int64) \<noteq> 0"
proof
  assume "(of_nat (length bs) :: int64) = 0"
  then have "2 ^ 64 dvd length bs" by (simp add: word_of_nat_eq_0_iff)
  moreover from assms(1) have "0 < length bs" by simp
  ultimately have "2 ^ 64 \<le> length bs" by (rule dvd_imp_le)
  with assms(2) show False by simp
qed

text \<open>
  C10. When \<open>Read\<close> returns a positive number of bytes together with \<open>EOF\<close>, the stored
  read offset is the one before the call. A later \<open>Seek\<close> or \<open>ReadAt\<close> relative to the
  current position computes its target from that offset: the target is not the one
  that counts the bytes just delivered.
\<close>

theorem Read_EOF_offset:
  assumes "Read fs f n = Ret ((bs, Some EOF), f')" and "bs \<noteq> []"
  shows "streamReadOffset f' = streamReadOffset f \<and>
         startByte f' off SeekCurrent = Ret (streamReadOffset f + off) \<and>
         (length bs < 2 ^ 64 \<longrightarrow>
            startByte f' off SeekCurrent \<noteq> Ret (streamReadOffset f + of_nat (length bs) + off)) \<and>
         (\<forall>pos f''. Seek fs f' off SeekCurrent = Ret ((pos, None), f'') \<longrightarrow>
            pos = streamReadOffset f + off \<and> streamReadOffset f'' = streamReadOffset f + off) \<and>
         (\<forall>m r f''. ReadAt fs f' m off = Ret ((r, None), f'') \<longrightarrow>
            streamReadOffset f'' = streamReadOffset f + off + of_nat (length r))"
proof -
  from assms have same: "streamReadOffset f' = streamReadOffset f"
    by (auto simp: Read_def split: option.splits prod.splits if_splits)
  then have target: "startByte f' off SeekCurrent = Ret (streamReadOffset f + off)"
    by (simp add: startByte_def SeekCurrent_def SeekStart_def)
  have under: "length bs < 2 ^ 64 \<longrightarrow>
      startByte f' off SeekCurrent \<noteq> Ret (streamReadOffset f + of_nat (length bs) + off)"
    using of_nat_length_nonzero [OF assms(2)] by (auto simp: target)
  have seek: "\<forall>pos f''. Seek fs f' off SeekCurrent = Ret ((pos, None), f'') \<longrightarrow>
            pos = streamReadOffset f + off \<and> streamReadOffset f'' = streamReadOffset f + off"
    by (auto simp: Seek_def seekRead_def target openReadStream_def Let_def
        split: option.splits prod.splits if_splits sum.splits)
  have "\<forall>m r f''. ReadAt fs f' m off = Ret ((r, None), f'') \<longrightarrow>
            streamReadOffset f'' = streamReadOffset f + off + of_nat (length r)"
    by (auto simp: ReadAt_def Read_def Seek_def seekRead_def target openReadStream_def Let_def
        split: option.splits prod.splits if_splits sum.splits outcome.splits)
  with same target under seek show ?thesis by blast
qed

lemma demoAtEnd_Seek:
  "Seek demoFs demoAtEnd 0 SeekCurrent = Ret ((3, None), demoReadingAt3)"
  by (simp add: Seek_def seekRead_def startByte_def SeekCurrent_def SeekStart_def
      openReadStream_def demoFs_def demoAtEnd_def demoReadingAt3_def newFile_def
      demoDownload_def demoContent_def fmt_d_def)

lemma demoReadingAt3_Read_all:
  "Read demoFs demoReadingAt3 8 = Ret (([4, 5, 6, 7, 8], Some EOF), demoAtEnd)"
  by (simp add: Read_def demoReadingAt3_def demoAtEnd_def demoFs_def bytesRead_def newFile_def)

theorem Read_EOF_offset_witness:
  "Read demoFs demoReadingAt3 8 = Ret (([4, 5, 6, 7, 8], Some EOF), demoAtEnd) \<and>
   streamReadOffset demoAtEnd = streamReadOffset demoReadingAt3 \<and>
   startByte demoAtEnd 0 SeekCurrent = Ret 3 \<and>
   startByte demoAtEnd 0 SeekCurrent \<noteq> Ret 8 \<and>
   Seek demoFs demoAtEnd 0 SeekCurrent = Ret ((3, None), demoReadingAt3)"
proof -
  have nonempty: "[4, 5, 6, 7, 8 :: byte] \<noteq> []" by simp
  have at3: "streamReadOffset demoReadingAt3 = 3"
    by (simp add: demoReadingAt3_def)
  from Read_EOF_offset [OF demoReadingAt3_Read_all nonempty, of 0] at3 demoAtEnd_Seek
    demoReadingAt3_Read_all
  show ?thesis by simp
qed

text \<open>
  C9 as stated fails: two successive \<open>ReadAt\<close> calls with the same
  \<open>off\<close> can read from the same position. On a handle at offset 3 of the eight-byte
  object, \<open>ReadAt(p, 0)\<close> with a buffer of eight bytes seeks to 3 and reads the last
  five bytes together with \<open>EOF\<close>; the offset stays 3, and the second call seeks to 3
  and reads the same five bytes.
\<close>

theorem ReadAt_twice_same_position:
  "startByte demoReadingAt3 0 SeekCurrent = Ret 3 \<and>
   ReadAt demoFs demoReadingAt3 8 0 = Ret (([4, 5, 6, 7, 8], Some EOF), demoAtEnd) \<and>
   startByte demoAtEnd 0 SeekCurrent = Ret 3 \<and>
   ReadAt demoFs demoAtEnd 8 0 = Ret (([4, 5, 6, 7, 8], Some EOF), demoAtEnd)"
  by (simp add: ReadAt_def Seek_def seekRead_def startByte_def SeekCurrent_def SeekStart_def
      openReadStream_def Read_def demoFs_def demoReadingAt3_def demoAtEnd_def newFile_def
      demoDownload_def demoContent_def fmt_d_def bytesRead_def)

text \<open>
  C9, amended. On a handle with an open read stream at the stored offset \<open>c\<close>, whose
  close succeeds and with \<open>c + off\<close> non-negative, \<open>ReadAt(p, off)\<close> seeks relative to
  the current position: it reopens the download at \<open>c + off\<close> and reads there, not at
  the absolute byte \<open>off\<close>. When the call returns, the stored offset is \<open>c + off + adv\<close>,
  where \<open>adv\<close> is the number of bytes returned if the call returned no error and 0
  otherwise; a second \<open>ReadAt\<close> with the same \<open>off\<close> has the target
  \<open>c + off + adv + off\<close>, which is the first target exactly when \<open>adv + off = 0\<close>.
\<close>

theorem ReadAt_current_relative:
  assumes "streamWrite f = None" and "streamRead f = Some old"
    and "bodyClose fs old = (None, old')"
    and "0 \<le> sint (streamReadOffset f + off)"
  shows "startByte f off SeekCurrent = Ret (streamReadOffset f + off) \<and>
         ReadAt fs f n off =
           (case openReadStream fs (f\<lparr>streamRead := None\<rparr>) (streamReadOffset f + off) of
              (Some err, f1) \<Rightarrow> Ret (([], Some err), f1)
            | (None, f1) \<Rightarrow> Read fs f1 n) \<and>
         (\<forall>bs e f1. ReadAt fs f n off = Ret ((bs, e), f1) \<longrightarrow>
            (let adv = (if e = None then of_nat (length bs) else 0) in
             streamReadOffset f1 = streamReadOffset f + off + adv \<and>
             startByte f1 off SeekCurrent = Ret (streamReadOffset f + off + adv + off) \<and>
             (startByte f1 off SeekCurrent = startByte f off SeekCurrent \<longleftrightarrow> adv + off = 0)))"
proof -
  have target: "startByte f off SeekCurrent = Ret (streamReadOffset f + off)"
    by (simp add: startByte_def SeekCurrent_def SeekStart_def)
  have seek: "Seek fs f off SeekCurrent =
      (case openReadStream fs (f\<lparr>streamRead := None\<rparr>) (streamReadOffset f + off) of
         (err, f2) \<Rightarrow> Ret ((streamReadOffset f + off, err), f2))"
    using assms by (simp add: Seek_def seekRead_def target)
  have readAt: "ReadAt fs f n off =
           (case openReadStream fs (f\<lparr>streamRead := None\<rparr>) (streamReadOffset f + off) of
              (Some err, f1) \<Rightarrow> Ret (([], Some err), f1)
            | (None, f1) \<Rightarrow> Read fs f1 n)"
    by (simp add: ReadAt_def seek split: prod.splits option.splits)
  have after: "streamReadOffset f1 =
      streamReadOffset f + off + (if e = None then of_nat (length bs) else 0)"
    if "ReadAt fs f n off = Ret ((bs, e), f1)" for bs e f1
    using that unfolding readAt
    by (auto simp: openReadStream_def Read_def Let_def
        split: prod.splits option.splits sum.splits if_splits)
  have "\<forall>bs e f1. ReadAt fs f n off = Ret ((bs, e), f1) \<longrightarrow>
            (let adv = (if e = None then of_nat (length bs) else 0) in
             streamReadOffset f1 = streamReadOffset f + off + adv \<and>
             startByte f1 off SeekCurrent = Ret (streamReadOffset f + off + adv + off) \<and>
             (startByte f1 off SeekCurrent = startByte f off SeekCurrent \<longleftrightarrow> adv + off = 0))"
  proof (intro allI impI)
    fix bs e f1
    assume "ReadAt fs f n off = Ret ((bs, e), f1)"
    from after [OF this]
    show "let adv = (if e = None then of_nat (length bs) else 0) in
             streamReadOffset f1 = streamReadOffset f + off + adv \<and>
             startByte f1 off SeekCurrent = Ret (streamReadOffset f + off + adv + off) \<and>
             (startByte f1 off SeekCurrent = startByte f off SeekCurrent \<longleftrightarrow> adv + off = 0)"
      by (simp add: Let_def startByte_def SeekCurrent_def SeekStart_def add.assoc add.commute)
  qed
  with target readAt show ?thesis by blast
qed

lemma demoReadingAt3_ReadAt_2:
  "ReadAt demoFs demoReadingAt3 2 0 =
     Ret (([4, 5], None), demoReadingAt3\<lparr>streamRead := Some [6, 7, 8], streamReadOffset := 5\<rparr>)"
  by (simp add: ReadAt_def Seek_def seekRead_def startByte_def SeekCurrent_def SeekStart_def
      openReadStream_def Read_def demoFs_def demoReadingAt3_def newFile_def
      demoDownload_def demoContent_def fmt_d_def bytesRead_def)

theorem ReadAt_current_relative_witness:
  "startByte demoReadingAt3 0 SeekCurrent = Ret 3 \<and>
   ReadAt demoFs demoReadingAt3 2 0 =
     Ret (([4, 5], None), demoReadingAt3\<lparr>streamRead := Some [6, 7, 8], streamReadOffset := 5\<rparr>) \<and>
   startByte (demoReadingAt3\<lparr>streamRead := Some [6, 7, 8], streamReadOffset := 5\<rparr>) 0 SeekCurrent
     = Ret 5 \<and>
   startByte (demoReadingAt3\<lparr>streamRead := Some [6, 7, 8], streamReadOffset := 5\<rparr>) 0 SeekCurrent
     \<noteq> startByte demoReadingAt3 0 SeekCurrent"
proof -
  have hyps: "streamWrite demoReadingAt3 = None" "streamRead demoReadingAt3 = Some [4, 5, 6, 7, 8]"
    "bodyClose demoFs [4, 5, 6, 7, 8] = (None, [4, 5, 6, 7, 8])"
    "0 \<le> sint (streamReadOffset demoReadingAt3 + 0)"
    by (simp_all add: demoReadingAt3_def newFile_def demoFs_def)
  have at3: "streamReadOffset demoReadingAt3 = 3"
    by (simp add: demoReadingAt3_def)
  from ReadAt_current_relative [OF hyps, of 2] demoReadingAt3_ReadAt_2 at3
  show ?thesis by (simp add: Let_def)
qed

text \<open>
  What holds of C2: with an open read stream whose close succeeds, a \<open>Seek\<close> with a
  negative target returns \<open>ErrInvalidSeek\<close> and leaves no read stream, and a later
  \<open>Seek\<close> reports \<open>ErrFileClosed\<close>. \<open>Read\<close> has no such test: it calls \<open>Read\<close> on the nil
  stream and panics.
\<close>

lemma Seek_negative_target:
  assumes "streamWrite f = None" and "streamRead f = Some old"
    and "bodyClose fs old = (None, old')"
    and "startByte f offset whence = Ret b" and "sint b < 0"
  shows "Seek fs f offset whence = Ret ((b, Some ErrInvalidSeek), f\<lparr>streamRead := None\<rparr>)"
    and "Read fs (f\<lparr>streamRead := None\<rparr>) n = Panic"
    and "Seek fs (f\<lparr>streamRead := None\<rparr>) offset' whence' =
           Ret ((0, Some ErrFileClosed), f\<lparr>streamRead := None\<rparr>)"
  using assms by (simp_all add: Seek_def seekRead_def Read_def)

text \<open>
  C2, at a concrete handle: on an open read stream \<open>Seek(-1, SeekStart)\<close> returns
  \<open>ErrInvalidSeek\<close> and clears the stream; the \<open>Read\<close> that follows panics instead of
  returning \<open>ErrFileClosed\<close>, which \<open>Seek\<close> returns on the same handle.
\<close>

theorem Read_after_invalid_Seek_panics:
  "Seek demoFs demoReading (- 1) SeekStart =
     Ret ((- 1, Some ErrInvalidSeek), demoReading\<lparr>streamRead := None\<rparr>) \<and>
   Read demoFs (demoReading\<lparr>streamRead := None\<rparr>) 4 = Panic \<and>
   Seek demoFs (demoReading\<lparr>streamRead := None\<rparr>) 0 SeekStart =
     Ret ((0, Some ErrFileClosed), demoReading\<lparr>streamRead := None\<rparr>)"
  by (simp add: Seek_def seekRead_def startByte_def SeekStart_def demoFs_def
        demoReading_def newFile_def Read_def)

subsection \<open>Closing a write stream\<close>

text \<open>
  \<open>Close\<close> on a write stream whose upload returns at the end of the body: \<open>Close\<close>
  returns the error of the upload, if any, and the cached metadata is the \<open>FileInfo\<close>
  made of the pointer that \<open>Upload\<close> returned, whether it failed or not.
\<close>

lemma Close_upload_result:
  assumes "streamRead f = None" and "streamWrite f = Some w"
    and "streamWriteCloseErr f = Some NoSender"
    and "Upload fs \<lparr>CommitPath = name f, Mode = ''overwrite'', Autorename = False\<rparr>
           (pipeRead w) True = Some (m, err)"
  shows "\<exists>f'. Close fs f = Ret (err, f') \<and>
              cachedInfo f' = Some (newFileInfo (FileMetadataPtr m)) \<and>
              streamWrite f' = None"
  using assms
  by (simp add: Close_def pipeClose_def uploadTask_def Let_def)

text \<open>
  C1, at a concrete handle: a write stream is opened (the cached metadata is absent),
  three bytes are written without error, and the upload fails at the end of the body.
  \<open>Close\<close> returns the upload's error, but the cached metadata is now a \<open>FileInfo\<close> on
  the nil metadata of the failed upload; \<open>Stat\<close> returns it without asking the remote,
  and its \<open>Size\<close> panics.
\<close>

theorem Close_failed_upload_sets_cachedInfo:
  "cachedInfo demoWriting = None \<and>
   Write demoFs demoWriting [1, 2, 3] = Ret ((3, None), demoWritten) \<and>
   cachedInfo demoWritten = None \<and>
   Close demoFs demoWritten = Ret (Some (Transport ''upload failed''), demoFailed) \<and>
   cachedInfo demoFailed = Some (FileInfo (FileMetadataPtr None)) \<and>
   Stat demoFs demoFailed = ((Some (FileInfo (FileMetadataPtr None)), None), demoFailed) \<and>
   FileInfo_Size (FileInfo (FileMetadataPtr None)) = Panic"
  by (simp add: demoWriting_def demoWritten_def demoFailed_def openWriteStream_def newFile_def
      Write_def uploadTask_def demoFs_def Close_def pipeClose_def Stat_def newFileInfo_def)

subsection \<open>Listing a whole directory\<close>

lemma readDirAll_loop_pages:
  "continuation fs r rs \<Longrightarrow> \<forall>x \<in> set (r # rs). HasMore x \<longrightarrow> ResultCursor x \<noteq> [] \<Longrightarrow>
   (if cursor = [] then ListFolder fs \<lparr>Path = name f, Limit = 0\<rparr>
    else ListFolderContinue fs \<lparr>Cursor = cursor\<rparr>) = Inr r \<Longrightarrow>
   readDirAll_loop fs f fis cursor =
     Some (Inr (fis @ map newFileInfo (concat (map Entries (r # rs)))))"
proof (induction rs arbitrary: r fis cursor)
  case Nil
  then show ?case
    by (subst readDirAll_loop.simps) (simp split: if_splits)
next
  case (Cons r' rs)
  have more: "HasMore r" and nonempty: "ResultCursor r \<noteq> []"
    and fetch: "ListFolderContinue fs \<lparr>Cursor = ResultCursor r\<rparr> = Inr r'"
    and rest: "continuation fs r' rs"
    using Cons.prems by auto
  have "readDirAll_loop fs f (fis @ map newFileInfo (Entries r)) (ResultCursor r) =
          Some (Inr ((fis @ map newFileInfo (Entries r)) @
                 map newFileInfo (concat (map Entries (r' # rs)))))"
    using Cons.prems(2) nonempty fetch by (intro Cons.IH [OF rest]) auto
  then show ?case
    using Cons.prems(3) more by (subst readDirAll_loop.simps) (simp split: if_splits)
qed

text \<open>
  C5 as stated fails when the server issues an empty cursor with a page
  that has more: the loop takes the empty cursor for the start and calls the initial
  listing again. Here the pages of the listing are the one of \<open>a\<close> and, by the
  continuation call with the (empty) cursor, the one of \<open>b\<close>; \<open>Readdir(0)\<close> does not
  return their entries: it lists the first page for ever.
\<close>

lemma restartFs_never:
  assumes "readDirAll_loop fs f fis cursor = Some y"
  shows "fs = restartFs \<longrightarrow> cursor \<noteq> []"
proof (rule readDirAll_loop.raw_induct
    [where P = "\<lambda>fs f fis cursor y. fs = restartFs \<longrightarrow> cursor \<noteq> []", OF _ assms], goal_cases)
  case (1 loop fs f fis cursor y)
  show ?case
  proof (intro impI notI)
    assume "fs = restartFs" and "cursor = []"
    with 1(2) have "loop restartFs f (fis @ map newFileInfo [entry ''a'']) [] = Some y"
      by (simp add: restartFs_def)
    from 1(1) [OF this] show False by simp
  qed
qed

theorem Readdir_all_restart:
  "listing restartFs ''/d''
     [\<lparr>Entries = [entry ''a''], ResultCursor = [], HasMore = True\<rparr>,
      \<lparr>Entries = [entry ''b''], ResultCursor = ''c1'', HasMore = False\<rparr>] \<and>
   Readdir restartFs (newFile ''/d'') 0 = None"
proof -
  have "readDirAll_loop restartFs (newFile ''/d'') [] [] = None"
    using restartFs_never [of restartFs "newFile ''/d''" "[]" "[]"]
    by (cases "readDirAll_loop restartFs (newFile ''/d'') [] []") auto
  then show ?thesis
    by (simp add: Readdir_def readDirAll_def restartFs_def newFile_def)
qed

text \<open>
  C5, amended. When the pages of the listing of the handle's path exist (every call
  succeeds and a last page is reached) and every cursor issued with a page that has
  more is non-empty, \<open>Readdir\<close> with \<open>count \<le> 0\<close> returns the entries of all the pages,
  concatenated in order, and leaves the handle as it was.
\<close>

theorem Readdir_all:
  assumes "count \<le> 0" and "listing fs (name f) ps"
    and "\<forall>r \<in> set ps. HasMore r \<longrightarrow> ResultCursor r \<noteq> []"
  shows "Readdir fs f count = Some (Inr (map newFileInfo (concat (map Entries ps))), f)"
proof (cases ps)
  case Nil
  with assms(2) show ?thesis by simp
next
  case (Cons r rs)
  with assms have "readDirAll_loop fs f [] [] =
      Some (Inr ([] @ map newFileInfo (concat (map Entries (r # rs)))))"
    by (intro readDirAll_loop_pages) auto
  with Cons assms(1) show ?thesis by (simp add: Readdir_def readDirAll_def)
qed

theorem Readdir_all_witness:
  "listing listFs ''/d''
     [\<lparr>Entries = [entry ''a'', entry ''b''], ResultCursor = ''c1'', HasMore = True\<rparr>,
      \<lparr>Entries = [entry ''c''], ResultCursor = ''c2'', HasMore = False\<rparr>] \<and>
   Readdir listFs (newFile ''/d'') 0 =
     Some (Inr [FileInfo (entry ''a''), FileInfo (entry ''b''), FileInfo (entry ''c'')],
           newFile ''/d'') \<and>
   Readdir listFs (newFile ''/d'') (- 1) =
     Some (Inr [FileInfo (entry ''a''), FileInfo (entry ''b''), FileInfo (entry ''c'')],
           newFile ''/d'')"
proof -
  let ?ps = "[\<lparr>Entries = [entry ''a'', entry ''b''], ResultCursor = ''c1'', HasMore = True\<rparr>,
      \<lparr>Entries = [entry ''c''], ResultCursor = ''c2'', HasMore = False\<rparr>]"
  have pages: "listing listFs (name (newFile ''/d'' :: byte list File)) ?ps"
    by (simp add: listFs_def newFile_def)
  have cursors: "\<forall>r \<in> set ?ps. HasMore r \<longrightarrow> ResultCursor r \<noteq> []"
    by simp
  have "(0::int) \<le> 0" and "(- 1::int) \<le> 0" by simp_all
  from Readdir_all [OF this(1) pages cursors] Readdir_all [OF this(2) pages cursors] pages
  show ?thesis by (simp add: newFileInfo_def newFile_def)
qed

subsection \<open>Listing a directory by counts\<close>

lemma drain_length:
  "int (length acc) \<le> count \<Longrightarrow> int (length (fst (drain count acc q))) \<le> count"
  by (induction q arbitrary: acc) auto

lemma readDir_fetched:
  assumes "readDir fs f = Some (None, f1)"
  shows "\<exists>r. ((\<exists>arg. ListFolder fs arg = Inr r) \<or> (\<exists>arg. ListFolderContinue fs arg = Inr r)) \<and>
             dirListDone f1 = (\<not> HasMore r) \<and> dirListCursor f1 = ResultCursor r"
  using assms
  by (auto simp: readDir_def Let_def split: sum.splits option.splits if_splits)

lemma Readdir_loop_result:
  assumes "Readdir_loop fs count f acc = Some res"
  shows "\<forall>list f'. res = (Inr list, f') \<longrightarrow> int (length acc) \<le> count \<longrightarrow>
           int (length list) \<le> count \<and> (int (length list) < count \<longrightarrow> dirListDone f') \<and>
           (dirListDone f' \<longrightarrow> (f' = f \<and> list = acc) \<or>
              (\<exists>r. ((\<exists>arg. ListFolder fs arg = Inr r) \<or> (\<exists>arg. ListFolderContinue fs arg = Inr r)) \<and>
                   \<not> HasMore r \<and> dirListCursor f' = ResultCursor r))"
proof (rule Readdir_loop.raw_induct
    [where P = "\<lambda>fs count f acc res. \<forall>list f'. res = (Inr list, f') \<longrightarrow> int (length acc) \<le> count \<longrightarrow>
           int (length list) \<le> count \<and> (int (length list) < count \<longrightarrow> dirListDone f') \<and>
           (dirListDone f' \<longrightarrow> (f' = f \<and> list = acc) \<or>
              (\<exists>r. ((\<exists>arg. ListFolder fs arg = Inr r) \<or> (\<exists>arg. ListFolderContinue fs arg = Inr r)) \<and>
                   \<not> HasMore r \<and> dirListCursor f' = ResultCursor r))", OF _ assms], goal_cases)
  case (1 loop fs count f acc res)
  show ?case
  proof (intro allI impI)
    fix list f'
    assume res: "res = (Inr list, f')" and acc: "int (length acc) \<le> count"
    let ?goal = "int (length list) \<le> count \<and> (int (length list) < count \<longrightarrow> dirListDone f') \<and>
           (dirListDone f' \<longrightarrow> (f' = f \<and> list = acc) \<or>
              (\<exists>r. ((\<exists>arg. ListFolder fs arg = Inr r) \<or> (\<exists>arg. ListFolderContinue fs arg = Inr r)) \<and>
                   \<not> HasMore r \<and> dirListCursor f' = ResultCursor r))"
    show ?goal
    proof (cases "int (length acc) < count \<and> \<not> dirListDone f")
      case False
      with 1(2) res acc show ?thesis by auto
    next
      case True
      show ?thesis
      proof (cases "chanLen (dirList f) = 0")
        case empty: True
        from 1(2) True empty res obtain f1 where fetch: "readDir fs f = Some (None, f1)"
          by (auto split: option.splits prod.splits)
        from readDir_fetched [OF fetch] obtain r where
          r: "(\<exists>arg. ListFolder fs arg = Inr r) \<or> (\<exists>arg. ListFolderContinue fs arg = Inr r)"
            "dirListDone f1 = (\<not> HasMore r)" "dirListCursor f1 = ResultCursor r"
          by blast
        show ?thesis
        proof (cases "dirList f1")
          case None
          with 1(2) True empty fetch res have "loop fs count f1 acc = Some (Inr list, f')"
            by simp
          from 1(1) [OF this] acc r show ?thesis by auto
        next
          case (Some q)
          with 1(2) True empty fetch res
          have "loop fs count (f1\<lparr>dirList := Some (snd (drain count acc q))\<rparr>)
                  (fst (drain count acc q)) = Some (Inr list, f')"
            by simp
          from 1(1) [OF this] drain_length [OF acc, of q] r show ?thesis by auto
        qed
      next
        case nonempty: False
        then obtain q where q: "dirList f = Some q"
          by (auto simp: chanLen_def split: option.splits)
        with 1(2) True nonempty res
        have "loop fs count (f\<lparr>dirList := Some (snd (drain count acc q))\<rparr>)
                (fst (drain count acc q)) = Some (Inr list, f')"
          by simp
        from 1(1) [OF this] drain_length [OF acc, of q] True show ?thesis by auto
      qed
    qed
  qed
qed

lemma sendAll_fits:
  "length q + length es \<le> dirListingMaxLimit \<Longrightarrow>
   sendAll (Some q) es = Some (Some (q @ map newFileInfo es))"
  by (induction es arbitrary: q) auto

lemma drain_stops:
  "snd (drain count acc q) = [] \<or> count \<le> int (length (fst (drain count acc q)))"
  by (induction q arbitrary: acc) auto

lemma readDir_page:
  assumes "remaining fs (name f) (dirListCursor f) (r # rs)"
    and "chanLen (dirList f) = 0"
    and "dirList f = None \<longrightarrow> dirListCursor f = []"
  shows "readDir fs f =
           Some (None, f\<lparr>dirListCursor := ResultCursor r, dirListDone := \<not> HasMore r,
                         dirList := Some (map newFileInfo (Entries r))\<rparr>)"
proof (cases "dirListCursor f = []")
  case True
  with assms(1) sendAll_fits [of "[]" "Entries r"] show ?thesis
    by (simp add: readDir_def)
next
  case False
  with assms(2,3) have "dirList f = Some []"
    by (auto simp: chanLen_def split: option.splits)
  with False assms(1) sendAll_fits [of "[]" "Entries r"] show ?thesis
    by (simp add: readDir_def)
qed

lemma Readdir_loop_returns_empty:
  assumes "remaining fs (name f) (dirListCursor f) rs"
    and "chanLen (dirList f) = 0 \<or> count \<le> int (length acc) \<or> dirListDone f"
    and "dirList f = None \<longrightarrow> dirListCursor f = []"
  shows "\<exists>list f'. Readdir_loop fs count f acc = Some (Inr list, f')"
  using assms
proof (induction rs arbitrary: f acc)
  case Nil
  then show ?case by simp
next
  case (Cons r rs)
  show ?case
  proof (cases "int (length acc) < count \<and> \<not> dirListDone f")
    case False
    then show ?thesis by (subst Readdir_loop.simps) auto
  next
    case True
    with Cons.prems(2) have empty: "chanLen (dirList f) = 0" by auto
    let ?q = "map newFileInfo (Entries r)"
    let ?f1 = "f\<lparr>dirListCursor := ResultCursor r, dirListDone := \<not> HasMore r,
                 dirList := Some ?q\<rparr>"
    let ?g = "?f1\<lparr>dirList := Some (snd (drain count acc ?q))\<rparr>"
    let ?acc = "fst (drain count acc ?q)"
    have fetch: "readDir fs f = Some (None, ?f1)"
      by (rule readDir_page [OF Cons.prems(1) empty Cons.prems(3)])
    have step: "Readdir_loop fs count f acc = Readdir_loop fs count ?g ?acc"
      using True empty fetch by (subst Readdir_loop.simps) simp
    show ?thesis
    proof (cases "HasMore r")
      case False
      then have "Readdir_loop fs count ?g ?acc = Some (Inr ?acc, ?g)"
        by (subst Readdir_loop.simps) simp
      with step show ?thesis by simp
    next
      case True
      with Cons.prems(1) have "remaining fs (name ?g) (dirListCursor ?g) rs" by simp
      moreover have "chanLen (dirList ?g) = 0 \<or> count \<le> int (length ?acc) \<or> dirListDone ?g"
        using drain_stops [of count acc ?q] by (auto simp: chanLen_def)
      moreover have "dirList ?g = None \<longrightarrow> dirListCursor ?g = []" by simp
      ultimately have "\<exists>list f'. Readdir_loop fs count ?g ?acc = Some (Inr list, f')"
        by (rule Cons.IH)
      with step show ?thesis by simp
    qed
  qed
qed

lemma Readdir_loop_returns:
  assumes "dirListDone f \<or> remaining fs (name f) (dirListCursor f) rs"
    and "dirList f = None \<longrightarrow> dirListCursor f = []"
  shows "\<exists>list f'. Readdir_loop fs count f acc = Some (Inr list, f')"
proof (cases "int (length acc) < count \<and> \<not> dirListDone f")
  case False
  then show ?thesis by (subst Readdir_loop.simps) auto
next
  case True
  with assms(1) have pages: "remaining fs (name f) (dirListCursor f) rs" by simp
  show ?thesis
  proof (cases "chanLen (dirList f) = 0")
    case True
    with pages assms(2) show ?thesis by (intro Readdir_loop_returns_empty) auto
  next
    case False
    then obtain q where q: "dirList f = Some q"
      by (auto simp: chanLen_def split: option.splits)
    let ?g = "f\<lparr>dirList := Some (snd (drain count acc q))\<rparr>"
    let ?acc = "fst (drain count acc q)"
    have step: "Readdir_loop fs count f acc = Readdir_loop fs count ?g ?acc"
      using True False q by (subst Readdir_loop.simps) simp
    have "\<exists>list f'. Readdir_loop fs count ?g ?acc = Some (Inr list, f')"
      using pages drain_stops [of count acc q]
      by (intro Readdir_loop_returns_empty [of fs _ rs]) (auto simp: chanLen_def)
    with step show ?thesis by simp
  qed
qed


text \<open>
  C6. For \<open>count > 0\<close>: a list that \<open>Readdir(count)\<close> returns has at most \<open>count\<close>
  entries, and fewer than \<open>count\<close> only if the done flag is set on return; a done flag
  that was not set before the call was set from a response of the server that has no
  more pages, whose cursor is the stored one. An iteration of the loop that finds
  entries in the queue takes them from there and does not fetch. The call does return
  a list when the done flag is set already, or when the pages to fetch exist, each fits
  the queue and the last one has no more.
\<close>

theorem Readdir_count:
  fixes fs :: "'s Fs"
  assumes "0 < count"
  shows "(\<forall>list f'. Readdir fs f count = Some (Inr list, f') \<longrightarrow>
            int (length list) \<le> count \<and>
            (int (length list) < count \<longrightarrow> dirListDone f') \<and>
            (\<not> dirListDone f \<and> dirListDone f' \<longrightarrow>
               (\<exists>r. ((\<exists>arg. ListFolder fs arg = Inr r) \<or>
                     (\<exists>arg. ListFolderContinue fs arg = Inr r)) \<and>
                    \<not> HasMore r \<and> dirListCursor f' = ResultCursor r))) \<and>
         (\<forall>g acc q. dirList g = Some q \<and> q \<noteq> [] \<and> \<not> dirListDone g \<and>
                    int (length acc) < count \<longrightarrow>
            Readdir_loop fs count g acc =
              Readdir_loop fs count (g\<lparr>dirList := Some (snd (drain count acc q))\<rparr>)
                (fst (drain count acc q))) \<and>
         (\<forall>rs. (dirListDone f \<or> remaining fs (name f) (dirListCursor f) rs) \<and>
               (dirList f = None \<longrightarrow> dirListCursor f = []) \<longrightarrow>
            (\<exists>list f'. Readdir fs f count = Some (Inr list, f')))"
proof (intro conjI allI impI)
  fix list f'
  assume "Readdir fs f count = Some (Inr list, f')"
  with assms have run: "Readdir_loop fs count f [] = Some (Inr list, f')"
    by (simp add: Readdir_def)
  from Readdir_loop_result [OF run] assms
  have result: "int (length list) \<le> count \<and> (int (length list) < count \<longrightarrow> dirListDone f') \<and>
           (dirListDone f' \<longrightarrow> (f' = f \<and> list = []) \<or>
              (\<exists>r. ((\<exists>arg. ListFolder fs arg = Inr r) \<or> (\<exists>arg. ListFolderContinue fs arg = Inr r)) \<and>
                   \<not> HasMore r \<and> dirListCursor f' = ResultCursor r))"
    by simp
  from result show "int (length list) \<le> count" by simp
  {
    assume "int (length list) < count"
    with result show "dirListDone f'" by simp
  }
  {
    assume "\<not> dirListDone f \<and> dirListDone f'"
    with result
    show "\<exists>r. ((\<exists>arg. ListFolder fs arg = Inr r) \<or> (\<exists>arg. ListFolderContinue fs arg = Inr r)) \<and>
              \<not> HasMore r \<and> dirListCursor f' = ResultCursor r"
      by auto
  }
next
  fix g :: "'s File" and acc q :: "FileInfo list"
  assume "dirList g = Some q \<and> q \<noteq> [] \<and> \<not> dirListDone g \<and> int (length acc) < count"
  then show "Readdir_loop fs count g acc =
              Readdir_loop fs count (g\<lparr>dirList := Some (snd (drain count acc q))\<rparr>)
                (fst (drain count acc q))"
    by (subst Readdir_loop.simps) (auto simp: chanLen_def)
next
  fix rs
  assume "(dirListDone f \<or> remaining fs (name f) (dirListCursor f) rs) \<and>
          (dirList f = None \<longrightarrow> dirListCursor f = [])"
  then have "\<exists>list f'. Readdir_loop fs count f [] = Some (Inr list, f')"
    by (intro Readdir_loop_returns [of f fs rs]) auto
  with assms show "\<exists>list f'. Readdir fs f count = Some (Inr list, f')"
    by (simp add: Readdir_def)
qed

lemma listFs_Readdir_1:
  "Readdir listFs (newFile ''/d'') 1 = Some (Inr [FileInfo (entry ''a'')], listed1)"
  by (simp add: Readdir_def Readdir_loop.simps readDir_def listFs_def newFile_def chanLen_def
      dirListingMaxLimit_def newFileInfo_def listed1_def)

lemma listFs_Readdir_5:
  "Readdir listFs (newFile ''/d'') 5 =
     Some (Inr [FileInfo (entry ''a''), FileInfo (entry ''b''), FileInfo (entry ''c'')], listed5)"
  by (simp add: Readdir_def Readdir_loop.simps readDir_def listFs_def newFile_def chanLen_def
      dirListingMaxLimit_def newFileInfo_def listed5_def)

theorem Readdir_count_witness:
  "Readdir listFs (newFile ''/d'') 1 = Some (Inr [FileInfo (entry ''a'')], listed1) \<and>
   Readdir listFs (newFile ''/d'') 5 =
     Some (Inr [FileInfo (entry ''a''), FileInfo (entry ''b''), FileInfo (entry ''c'')], listed5) \<and>
   dirListDone listed5 \<and>
   Readdir_loop listFs 1 listed1 [] =
     Readdir_loop listFs 1 (listed1\<lparr>dirList := Some []\<rparr>) [FileInfo (entry ''b'')] \<and>
   remaining listFs ''/d'' []
     [\<lparr>Entries = [entry ''a'', entry ''b''], ResultCursor = ''c1'', HasMore = True\<rparr>,
      \<lparr>Entries = [entry ''c''], ResultCursor = ''c2'', HasMore = False\<rparr>] \<and>
   (\<exists>list f'. Readdir listFs (newFile ''/d'') 5 = Some (Inr list, f'))"
proof -
  let ?ps = "[\<lparr>Entries = [entry ''a'', entry ''b''], ResultCursor = ''c1'', HasMore = True\<rparr>,
      \<lparr>Entries = [entry ''c''], ResultCursor = ''c2'', HasMore = False\<rparr>]"
  have one: "(0::int) < 1" and five: "(0::int) < 5" by simp_all
  have short: "int (length [FileInfo (entry ''a''), FileInfo (entry ''b''), FileInfo (entry ''c'')]) < 5"
    by simp
  have buffered: "dirList listed1 = Some [FileInfo (entry ''b'')] \<and>
      [FileInfo (entry ''b'')] \<noteq> [] \<and> \<not> dirListDone listed1 \<and> int (length ([] :: FileInfo list)) < 1"
    by (simp add: listed1_def newFile_def)
  have pages: "remaining listFs ''/d'' [] ?ps"
    by (simp add: listFs_def dirListingMaxLimit_def)
  then have fresh: "(dirListDone (newFile ''/d'' :: byte list File) \<or>
       remaining listFs (name (newFile ''/d'' :: byte list File))
         (dirListCursor (newFile ''/d'' :: byte list File)) ?ps) \<and>
      (dirList (newFile ''/d'' :: byte list File) = None \<longrightarrow>
       dirListCursor (newFile ''/d'' :: byte list File) = [])"
    by (simp add: newFile_def)
  note five_thm = Readdir_count [OF five, of listFs "newFile ''/d''"]
  note one_thm = Readdir_count [OF one, of listFs "newFile ''/d''"]
  from five_thm [THEN conjunct1, rule_format, OF listFs_Readdir_5] short
  have "dirListDone listed5"
    by simp
  moreover from one_thm [THEN conjunct2, THEN conjunct1, rule_format, OF buffered]
  have "Readdir_loop listFs 1 listed1 [] =
     Readdir_loop listFs 1 (listed1\<lparr>dirList := Some (snd (drain 1 [] [FileInfo (entry ''b'')]))\<rparr>)
       (fst (drain 1 [] [FileInfo (entry ''b'')]))"
    by simp
  moreover from five_thm [THEN conjunct2, THEN conjunct2, rule_format, OF fresh]
  have "\<exists>list f'. Readdir listFs (newFile ''/d'') 5 = Some (Inr list, f')"
    by simp
  ultimately show ?thesis
    using listFs_Readdir_1 listFs_Readdir_5 pages by simp
qed

text \<open>
  Once the done flag is set, a call with \<open>count > 0\<close> does not enter the loop: it
  returns the empty list and leaves the queue as it is, whatever the queue holds.
\<close>

lemma Readdir_done:
  assumes "0 < count" and "dirListDone f"
  shows "Readdir fs f count = Some (Inr [], f)"
  using assms by (simp add: Readdir_def) (subst Readdir_loop.simps, simp)

end
